theory Spec2Isabelle
  imports Main "HOL-Library.Word" "HOL-Library.Signed_Division"
begin

unbundle bit_operations_syntax

section \<open>The process: address space, signals, the page counter\<close>

text \<open>
  The allocator of \<^verbatim>\<open>include/Malloc.hpp\<close> overlays its headers on memory obtained from
  \<^verbatim>\<open>mmap\<close> and finds them again with pointer casts, so the model keeps an explicit
  byte-addressed store. Pointers and \<^verbatim>\<open>size_t\<close> are 64-bit words (LP64, little endian),
  \<^verbatim>\<open>int\<close> is a 32-bit word read as two's complement.
\<close>

type_synonym addr = "64 word"

datatype signal = SIGSEGV | SIGTRAP

record state =
  s_outstandingPages :: "64 word"
  m_arenas :: "addr list"
  mapped :: "addr \<Rightarrow> bool"
  mem :: "addr \<Rightarrow> 8 word"

text \<open>
  A computation either ends the process with a signal (the state at that moment is kept
  for inspection) or returns a value and the next state.
\<close>

type_synonym 'a prog = "state \<Rightarrow> (signal \<times> state) + ('a \<times> state)"

definition ret :: "'a \<Rightarrow> 'a prog" where
  "ret v s = Inr (v, s)"

definition raise :: "signal \<Rightarrow> 'a prog" where
  "raise sg s = Inl (sg, s)"

definition bind :: "'a prog \<Rightarrow> ('a \<Rightarrow> 'b prog) \<Rightarrow> 'b prog" where
  "bind m f s = (case m s of Inl e \<Rightarrow> Inl e | Inr (v, s') \<Rightarrow> f v s')"

definition pageSize :: "64 word" where
  "pageSize = 4096"

text \<open>\<^verbatim>\<open>nullptr\<close> and \<^verbatim>\<open>MAP_FAILED\<close>, which is \<^verbatim>\<open>(void * ) -1\<close>.\<close>

definition nullptr :: addr where
  "nullptr = 0"

definition MAP_FAILED :: addr where
  "MAP_FAILED = - 1"

subsection \<open>Loads and stores\<close>

fun valid_range :: "(addr \<Rightarrow> bool) \<Rightarrow> addr \<Rightarrow> nat \<Rightarrow> bool" where
  "valid_range mp a 0 = True"
| "valid_range mp a (Suc n) = (if mp a then valid_range mp (a + 1) n else False)"

fun load_le :: "(addr \<Rightarrow> 8 word) \<Rightarrow> addr \<Rightarrow> nat \<Rightarrow> nat" where
  "load_le m a 0 = 0"
| "load_le m a (Suc n) = unat (m a) + 256 * load_le m (a + 1) n"

fun store_le :: "(addr \<Rightarrow> 8 word) \<Rightarrow> addr \<Rightarrow> nat \<Rightarrow> nat \<Rightarrow> (addr \<Rightarrow> 8 word)" where
  "store_le m a 0 v = m"
| "store_le m a (Suc n) v = store_le (m(a := of_nat (v mod 256))) (a + 1) n (v div 256)"

text \<open>An access to an unmapped byte is a segmentation fault.\<close>

definition rd64 :: "addr \<Rightarrow> (64 word) prog" where
  "rd64 a s = (if valid_range (mapped s) a 8
     then Inr (of_nat (load_le (mem s) a 8), s) else Inl (SIGSEGV, s))"

definition wr64 :: "addr \<Rightarrow> 64 word \<Rightarrow> unit prog" where
  "wr64 a v s = (if valid_range (mapped s) a 8
     then Inr ((), s\<lparr>mem := store_le (mem s) a 8 (unat v)\<rparr>) else Inl (SIGSEGV, s))"

definition rd32 :: "addr \<Rightarrow> (32 word) prog" where
  "rd32 a s = (if valid_range (mapped s) a 4
     then Inr (of_nat (load_le (mem s) a 4), s) else Inl (SIGSEGV, s))"

definition wr32 :: "addr \<Rightarrow> 32 word \<Rightarrow> unit prog" where
  "wr32 a v s = (if valid_range (mapped s) a 4
     then Inr ((), s\<lparr>mem := store_le (mem s) a 4 (unat v)\<rparr>) else Inl (SIGSEGV, s))"

subsection \<open>The two system calls\<close>

text \<open>
  The kernel maps whole pages: a request of \<open>len\<close> bytes covers \<open>len\<close> rounded up to
  a multiple of the page size.
\<close>

definition page_round :: "64 word \<Rightarrow> nat" where
  "page_round len = ((unat len + 4095) div 4096) * 4096"

definition in_range :: "addr \<Rightarrow> nat \<Rightarrow> addr \<Rightarrow> bool" where
  "in_range a n x = (unat a \<le> unat x \<and> unat x < unat a + n)"

definition set_range :: "addr \<Rightarrow> nat \<Rightarrow> 'a \<Rightarrow> (addr \<Rightarrow> 'a) \<Rightarrow> (addr \<Rightarrow> 'a)" where
  "set_range a n v f = (\<lambda>x. if in_range a n x then v else f x)"

text \<open>
  \<^verbatim>\<open>mmap(nullptr, len, PROT_READ | PROT_WRITE, MAP_ANONYMOUS | MAP_PRIVATE, 0, 0)\<close>.
  Where the kernel places the mapping, or that it refuses (\<open>None\<close>), is the
  environment's choice \<open>os\<close>; a length of zero is refused. A fresh anonymous mapping
  reads as zeros.
\<close>

definition mmap :: "addr option \<Rightarrow> 64 word \<Rightarrow> state \<Rightarrow> addr \<times> state" where
  "mmap os len s = (case os of
       None \<Rightarrow> (MAP_FAILED, s)
     | Some a \<Rightarrow> if len = 0 then (MAP_FAILED, s)
         else (a, s\<lparr>mapped := set_range a (page_round len) True (mapped s),
                    mem := set_range a (page_round len) 0 (mem s)\<rparr>))"

text \<open>
  \<^verbatim>\<open>munmap(a, len)\<close> fails (\<open>- 1\<close>) when \<open>a\<close> is not a multiple of the page size or
  \<open>len\<close> is zero; otherwise every page of the range is removed, mapped or not.
\<close>

definition munmap :: "addr \<Rightarrow> 64 word \<Rightarrow> state \<Rightarrow> int \<times> state" where
  "munmap a len s = (if a AND 4095 = 0
     then (if len = 0 then (- 1, s)
           else (0, s\<lparr>mapped := set_range a (page_round len) False (mapped s)\<rparr>))
     else (- 1, s))"

section \<open>MMapObject\<close>

text \<open>
  The header: \<^verbatim>\<open>m_mmapSize\<close> at offset 0 and \<^verbatim>\<open>m_arenaSize\<close> at offset 8, so
  \<^verbatim>\<open>sizeof(MMapObject)\<close> is 16.
\<close>

definition sizeof_MMapObject :: "64 word" where
  "sizeof_MMapObject = 16"

definition mmapSize :: "addr \<Rightarrow> (64 word) prog" where
  "mmapSize this = rd64 this"

definition arenaSize :: "addr \<Rightarrow> (64 word) prog" where
  "arenaSize this = rd64 (this + 8)"

text \<open>
  \<^verbatim>\<open>MMapObject::alloc\<close>. The counter is incremented first; the test after \<^verbatim>\<open>mmap\<close>
  reads the \<^verbatim>\<open>int\<close> the result points to.
\<close>

definition MMapObject_alloc :: "addr option \<Rightarrow> 64 word \<Rightarrow> 64 word \<Rightarrow> addr prog" where
  "MMapObject_alloc os sz arena_size s =
     (let s1 = s\<lparr>s_outstandingPages := s_outstandingPages s + 1\<rparr>;
          (ptr, s2) = mmap os sz s1
      in bind (rd32 ptr) (\<lambda>v.
           if sint v = - 1 \<or> sint v smod 8 \<noteq> 0 then ret nullptr
           else bind (wr64 ptr sz) (\<lambda>_.
                bind (wr64 (ptr + 8) arena_size) (\<lambda>_.
                ret ptr))) s2)"

text \<open>
  \<^verbatim>\<open>MMapObject::dealloc\<close>. \<^verbatim>\<open>raise(SIGTRAP)\<close> ends the process. The pointer is cast
  and used as it comes.
\<close>

definition MMapObject_dealloc :: "addr \<Rightarrow> unit prog" where
  "MMapObject_dealloc obj s =
     (let old = s_outstandingPages s;
          s1 = s\<lparr>s_outstandingPages := old - 1\<rparr>
      in if old = 0 then raise SIGTRAP s1
         else bind (mmapSize obj) (\<lambda>len s2.
                case munmap obj len s2 of (err, s3) \<Rightarrow>
                  if err = - 1 then raise SIGTRAP s3 else ret () s3) s1)"

definition outstandingPages :: "(64 word) prog" where
  "outstandingPages s = Inr (s_outstandingPages s, s)"

section \<open>BigAlloc\<close>

text \<open>
  \<^verbatim>\<open>BigAlloc\<close> adds only the zero-length \<^verbatim>\<open>m_data\<close>, which therefore sits at offset
  \<^verbatim>\<open>sizeof(BigAlloc)\<close>, 16.
\<close>

definition sizeof_BigAlloc :: "64 word" where
  "sizeof_BigAlloc = 16"

definition BigAlloc_alloc :: "addr option \<Rightarrow> 64 word \<Rightarrow> addr prog" where
  "BigAlloc_alloc os sz =
     bind (MMapObject_alloc os sz 0) (\<lambda>myBigAlloc.
       if myBigAlloc = nullptr \<or> unat sizeof_BigAlloc mod 8 \<noteq> 0 then ret nullptr
       else ret (myBigAlloc + sizeof_BigAlloc))"

section \<open>Arena\<close>

text \<open>
  After the inherited header come \<^verbatim>\<open>int item_count\<close> at offset 16 (padded to 8 bytes),
  \<^verbatim>\<open>size_t size_remain\<close> at 24, \<^verbatim>\<open>char* m_next\<close> at 32 and \<^verbatim>\<open>m_data\<close> at 40, which
  is \<^verbatim>\<open>sizeof(Arena)\<close>.
\<close>

definition sizeof_Arena :: "64 word" where
  "sizeof_Arena = 40"

definition item_count_at :: "addr \<Rightarrow> addr" where
  "item_count_at this = this + 16"

definition size_remain_at :: "addr \<Rightarrow> addr" where
  "size_remain_at this = this + 24"

definition m_next_at :: "addr \<Rightarrow> addr" where
  "m_next_at this = this + 32"

definition m_data :: "addr \<Rightarrow> addr" where
  "m_data this = this + sizeof_Arena"

definition Arena_create :: "addr option \<Rightarrow> 32 word \<Rightarrow> addr prog" where
  "Arena_create os itemSize =
     bind (MMapObject_alloc os pageSize (ucast itemSize)) (\<lambda>myArena.
       if myArena = nullptr \<or> unat sizeof_Arena mod 8 \<noteq> 0 then ret nullptr
       else bind (wr64 (m_next_at myArena) (m_data myArena)) (\<lambda>_.
            bind (wr32 (item_count_at myArena) 0) (\<lambda>_.
            bind (wr64 (size_remain_at myArena) pageSize) (\<lambda>_.
            ret myArena))))"

definition Arena_full :: "addr \<Rightarrow> bool prog" where
  "Arena_full this =
     bind (arenaSize this) (\<lambda>asz.
     bind (rd64 (size_remain_at this)) (\<lambda>size_remain.
     if asz > size_remain then ret True else ret False))"

definition Arena_alloc :: "addr \<Rightarrow> addr prog" where
  "Arena_alloc this =
     bind (Arena_full this) (\<lambda>is_full.
       if is_full then ret nullptr
       else bind (rd64 (size_remain_at this)) (\<lambda>size_remain.
            bind (arenaSize this) (\<lambda>asz.
            bind (wr64 (size_remain_at this) (size_remain - asz)) (\<lambda>_.
            bind (rd32 (item_count_at this)) (\<lambda>item_count.
            bind (wr32 (item_count_at this) (item_count + 1)) (\<lambda>_.
            bind (rd64 (m_next_at this)) (\<lambda>m_next.
            bind (arenaSize this) (\<lambda>asz'.
            bind (wr64 (m_next_at this) (m_next + asz')) (\<lambda>_.
            rd64 (m_next_at this))))))))))"

definition Arena_free :: "addr \<Rightarrow> bool prog" where
  "Arena_free this =
     bind (rd32 (item_count_at this)) (\<lambda>item_count.
     bind (if sint item_count > 0 then wr32 (item_count_at this) (item_count - 1) else ret ()) (\<lambda>_.
     bind (rd32 (item_count_at this)) (\<lambda>item_count'.
       if item_count' = 0 then Arena_full this else ret False)))"

definition Arena_next :: "addr \<Rightarrow> addr prog" where
  "Arena_next this = rd64 (m_next_at this)"

section \<open>ArenaStore\<close>

text \<open>The loop \<^verbatim>\<open>while(bytes >>= 1) { i <<= 1; arena_index++; }\<close>.\<close>

function class_loop :: "64 word \<Rightarrow> 64 word \<Rightarrow> int \<Rightarrow> 64 word \<times> int" where
  "class_loop bytes i arena_index =
     (let bytes' = drop_bit 1 bytes
      in if bytes' \<noteq> 0 then class_loop bytes' (push_bit 1 i) (arena_index + 1)
         else (i, arena_index))"
  by pat_completeness auto

termination
proof (relation "measure (\<lambda>(bytes, i, arena_index). unat bytes)")
  show "wf (measure (\<lambda>(bytes, i, arena_index). unat bytes))"
    by simp
next
  fix bytes i :: "64 word" and arena_index :: int and x :: "64 word"
  assume x: "x = drop_bit 1 bytes" and nz: "x \<noteq> 0"
  have "unat bytes \<noteq> 0"
    using x nz by (auto simp: unat_eq_0)
  moreover have "unat x = unat bytes div 2"
    using x by (simp add: drop_bit_eq_div unat_div)
  ultimately show "((x, push_bit 1 i, arena_index + 1), bytes, i, arena_index)
      \<in> measure (\<lambda>(bytes, i, arena_index). unat bytes)"
    by simp
qed

declare class_loop.simps [simp del]

text \<open>
  Lines 244 to 260 of \<^verbatim>\<open>ArenaStore::alloc\<close>, for \<open>bytes \<le> 1024\<close>: the item size and
  the index into \<^verbatim>\<open>m_arenas\<close>.
\<close>

definition size_class :: "64 word \<Rightarrow> 64 word \<times> int" where
  "size_class bytes =
     (if bytes \<le> 8 then (8, 0)
      else case class_loop bytes 1 0 of (i, arena_index) \<Rightarrow>
        ((if i < bytes then push_bit 1 i else i),
         (if i < bytes then arena_index + 1 else arena_index) - 3))"

text \<open>
  \<^verbatim>\<open>m_arenas[arena_index]\<close>, read and written. The table is an array of 9 pointers; an
  index outside it would be undefined behaviour in the source, and none arises: for
  \<open>bytes \<le> 1024\<close> the index lies between 0 and 7 (\<open>size_class_index\<close> below).
\<close>

definition get_arena :: "int \<Rightarrow> addr prog" where
  "get_arena arena_index s = Inr (m_arenas s ! nat arena_index, s)"

definition set_arena :: "int \<Rightarrow> addr \<Rightarrow> unit prog" where
  "set_arena arena_index a s = Inr ((), s\<lparr>m_arenas := (m_arenas s)[nat arena_index := a]\<rparr>)"

text \<open>Lines 261 to 268: the arena of the class serves the request.\<close>

definition alloc_from_class :: "addr option \<Rightarrow> 64 word \<Rightarrow> int \<Rightarrow> addr prog" where
  "alloc_from_class os bytes arena_index =
     bind (get_arena arena_index) (\<lambda>cur.
     bind (if cur = nullptr
           then bind (Arena_create os (ucast bytes)) (\<lambda>a. set_arena arena_index a)
           else ret ()) (\<lambda>_.
     bind (get_arena arena_index) (\<lambda>arena.
     bind (Arena_alloc arena) (\<lambda>result.
     bind (if result = nullptr then set_arena arena_index nullptr else ret ()) (\<lambda>_.
     ret result)))))"

definition ArenaStore_alloc :: "addr option \<Rightarrow> 64 word \<Rightarrow> addr prog" where
  "ArenaStore_alloc os bytes =
     (if bytes > 1024 then BigAlloc_alloc os bytes
      else case size_class bytes of (bytes', arena_index) \<Rightarrow>
        alloc_from_class os bytes' arena_index)"

definition ArenaStore_free :: "addr \<Rightarrow> unit prog" where
  "ArenaStore_free ptr =
     bind (arenaSize ptr) (\<lambda>asz.
       if asz = 0 then MMapObject_dealloc ptr
       else bind (Arena_free ptr) (\<lambda>drained.
              if drained then MMapObject_dealloc ptr else ret ()))"

section \<open>The two entry points\<close>

text \<open>
  \<^verbatim>\<open>myArenaStore\<close> has static storage: every table entry starts as \<^verbatim>\<open>nullptr\<close>, the
  counter at 0, and nothing of the allocator is mapped.
\<close>

definition initial :: state where
  "initial = \<lparr>s_outstandingPages = 0, m_arenas = replicate 9 nullptr,
     mapped = (\<lambda>_. False), mem = (\<lambda>_. 0)\<rparr>"

definition myMalloc :: "addr option \<Rightarrow> 64 word \<Rightarrow> addr prog" where
  "myMalloc os n = ArenaStore_alloc os n"

definition myFree :: "addr \<Rightarrow> unit prog" where
  "myFree a = ArenaStore_free a"

subsection \<open>Observing a run\<close>

text \<open>What a run returned, or the signal that ended it; and the state it left.\<close>

definition outcome :: "(signal \<times> state) + ('a \<times> state) \<Rightarrow> signal + 'a" where
  "outcome r = (case r of Inl (sg, s) \<Rightarrow> Inl sg | Inr (v, s) \<Rightarrow> Inr v)"

definition final :: "(signal \<times> state) + ('a \<times> state) \<Rightarrow> state" where
  "final r = (case r of Inl (sg, s) \<Rightarrow> s | Inr (v, s) \<Rightarrow> s)"

definition is_mapped :: "addr \<Rightarrow> bool prog" where
  "is_mapped a s = Inr (mapped s a, s)"

subsection \<open>Sequences of requests\<close>

text \<open>
  A client's request, with the answer the kernel gives if the request comes to call
  \<^verbatim>\<open>mmap\<close>; a sequence of requests is run until it ends or a signal ends the process.
\<close>

datatype request = Malloc "addr option" "64 word" | Free addr

fun step :: "request \<Rightarrow> unit prog" where
  "step (Malloc os n) = bind (myMalloc os n) (\<lambda>_. ret ())"
| "step (Free p) = myFree p"

fun run :: "request list \<Rightarrow> unit prog" where
  "run [] = ret ()"
| "run (r # rs) = bind (step r) (\<lambda>_. run rs)"

text \<open>The table has its nine entries and the ninth is null.\<close>

definition ninth_entry_null :: "state \<Rightarrow> bool" where
  "ninth_entry_null s = (length (m_arenas s) = 9 \<and> m_arenas s ! 8 = nullptr)"

text \<open>Computations that leave the table alone, and those that keep its ninth entry null.\<close>

definition keeps_table :: "'a prog \<Rightarrow> bool" where
  "keeps_table m = (\<forall>s. m_arenas (final (m s)) = m_arenas s)"

definition keeps_ninth :: "'a prog \<Rightarrow> bool" where
  "keeps_ninth m = (\<forall>s. ninth_entry_null s \<longrightarrow> ninth_entry_null (final (m s)))"

section \<open>Evaluating loads and stores\<close>

lemma four_Suc: "(4::nat) = Suc (Suc (Suc (Suc 0)))"
  by simp

lemma eight_Suc: "(8::nat) = Suc (Suc (Suc (Suc (Suc (Suc (Suc (Suc 0)))))))"
  by simp

lemma valid_range_4:
  "valid_range mp a 4 = (mp a \<and> mp (a + 1) \<and> mp (a + 2) \<and> mp (a + 3))"
  unfolding four_Suc by (simp add: add.assoc)

lemma valid_range_8:
  "valid_range mp a 8 = (mp a \<and> mp (a + 1) \<and> mp (a + 2) \<and> mp (a + 3)
     \<and> mp (a + 4) \<and> mp (a + 5) \<and> mp (a + 6) \<and> mp (a + 7))"
  unfolding eight_Suc by (simp add: add.assoc)

lemma load_le_4:
  "load_le m a 4 = unat (m a) + 256 * (unat (m (a + 1)) + 256 * (unat (m (a + 2))
     + 256 * unat (m (a + 3))))"
  unfolding four_Suc by (simp add: add.assoc)

lemma load_le_8:
  "load_le m a 8 = unat (m a) + 256 * (unat (m (a + 1)) + 256 * (unat (m (a + 2))
     + 256 * (unat (m (a + 3)) + 256 * (unat (m (a + 4)) + 256 * (unat (m (a + 5))
     + 256 * (unat (m (a + 6)) + 256 * unat (m (a + 7))))))))"
  unfolding eight_Suc by (simp add: add.assoc)

lemma store_le_4:
  "store_le m a 4 v = m(a := of_nat (v mod 256), a + 1 := of_nat (v div 256 mod 256),
     a + 2 := of_nat (v div 256 div 256 mod 256),
     a + 3 := of_nat (v div 256 div 256 div 256 mod 256))"
  unfolding four_Suc by (simp add: add.assoc)

lemma store_le_8:
  "store_le m a 8 v = m(a := of_nat (v mod 256), a + 1 := of_nat (v div 256 mod 256),
     a + 2 := of_nat (v div 256 div 256 mod 256),
     a + 3 := of_nat (v div 256 div 256 div 256 mod 256),
     a + 4 := of_nat (v div 256 div 256 div 256 div 256 mod 256),
     a + 5 := of_nat (v div 256 div 256 div 256 div 256 div 256 mod 256),
     a + 6 := of_nat (v div 256 div 256 div 256 div 256 div 256 div 256 mod 256),
     a + 7 := of_nat (v div 256 div 256 div 256 div 256 div 256 div 256 div 256 mod 256))"
  unfolding eight_Suc by (simp add: add.assoc)

subsection \<open>A store followed by a load\<close>

lemma unat_lt_64: "unat (w :: 64 word) < 2 ^ 64"
  using unsigned_less [of w, where ?'a = nat] by simp

lemma unat_of_nat_64: "x < 2 ^ 64 \<Longrightarrow> unat (of_nat x :: 64 word) = x"
  by (simp add: unat_of_nat)

lemma store_le_frame:
  "(\<And>i. i < n \<Longrightarrow> a + of_nat i \<noteq> x) \<Longrightarrow> store_le m a n v x = m x"
proof (induction n arbitrary: m a v)
  case 0
  then show ?case by simp
next
  case (Suc n)
  have "a \<noteq> x" using Suc.prems [of 0] by simp
  moreover have "store_le (m(a := of_nat (v mod 256))) (a + 1) n (v div 256) x
      = (m(a := of_nat (v mod 256))) x"
  proof (rule Suc.IH)
    fix i assume "i < n"
    then show "a + 1 + of_nat i \<noteq> x" using Suc.prems [of "Suc i"] by (simp add: add.assoc)
  qed
  ultimately show ?case by simp
qed

lemma load_le_cong:
  "(\<And>j. j < k \<Longrightarrow> m1 (b + of_nat j) = m2 (b + of_nat j)) \<Longrightarrow> load_le m1 b k = load_le m2 b k"
proof (induction k arbitrary: b)
  case 0
  then show ?case by simp
next
  case (Suc k)
  have "m1 b = m2 b" using Suc.prems [of 0] by simp
  moreover have "load_le m1 (b + 1) k = load_le m2 (b + 1) k"
  proof (rule Suc.IH)
    fix j assume "j < k"
    then show "m1 (b + 1 + of_nat j) = m2 (b + 1 + of_nat j)"
      using Suc.prems [of "Suc j"] by (simp add: add.assoc)
  qed
  ultimately show ?case by simp
qed

lemma apart:
  fixes a b :: "64 word"
  assumes "n \<le> unat (b - a)" "k \<le> unat (a - b)" "i < n" "j < k"
  shows "a + of_nat i \<noteq> b + of_nat j"
proof
  assume eq: "a + of_nat i = b + of_nat j"
  have n: "n < 2 ^ 64" "k < 2 ^ 64"
    using assms(1,2) unat_lt_64 [of "b - a"] unat_lt_64 [of "a - b"] by simp_all
  show False
  proof (cases "j \<le> i")
    case True
    have "b - a = of_nat i - of_nat j" using eq by (simp add: algebra_simps)
    also have "\<dots> = of_nat (i - j)" using True by simp
    finally have "unat (b - a) = i - j"
      using n assms(3) by (simp add: unat_of_nat_64)
    then show False using assms(1,3) by simp
  next
    case False
    have "a - b = of_nat j - of_nat i" using eq by (simp add: algebra_simps)
    also have "\<dots> = of_nat (j - i)" using False by simp
    finally have "unat (a - b) = j - i"
      using n assms(4) by (simp add: unat_of_nat_64)
    then show False using assms(2,4) by simp
  qed
qed

lemma load_store_apart:
  fixes a b :: "64 word"
  assumes "n \<le> unat (b - a)" "k \<le> unat (a - b)"
  shows "load_le (store_le m a n v) b k = load_le m b k"
proof (rule load_le_cong)
  fix j assume j: "j < k"
  show "store_le m a n v (b + of_nat j) = m (b + of_nat j)"
  proof (rule store_le_frame)
    fix i assume "i < n"
    then show "a + of_nat i \<noteq> b + of_nat j" using apart [OF assms _ j] by simp
  qed
qed

lemma load_store_same:
  "n \<le> 8 \<Longrightarrow> load_le (store_le m a n v) a n = v mod 256 ^ n"
proof (induction n arbitrary: m a v)
  case 0
  then show ?case by simp
next
  case (Suc n)
  let ?m = "m(a := of_nat (v mod 256))"
  have "store_le ?m (a + 1) n (v div 256) a = ?m a"
  proof (rule store_le_frame)
    fix i assume "i < n"
    then have "Suc i < 2 ^ 64" using Suc.prems by simp
    then have "unat (of_nat (Suc i) :: 64 word) = Suc i"
      by (rule unat_of_nat_64)
    then have "(of_nat (Suc i) :: 64 word) \<noteq> 0"
      by (metis Zero_not_Suc unat_0)
    then show "a + 1 + of_nat i \<noteq> a" by (simp add: add.assoc)
  qed
  moreover have "load_le (store_le ?m (a + 1) n (v div 256)) (a + 1) n = (v div 256) mod 256 ^ n"
    using Suc.IH Suc.prems by simp
  moreover have "unat (of_nat (v mod 256) :: 8 word) = v mod 256"
    by (simp add: unat_of_nat)
  ultimately show ?case
    by (simp add: mod_mult2_eq)
qed

lemma ld64_st64_same:
  "(of_nat (load_le (store_le m a 8 (unat (v :: 64 word))) a 8) :: 64 word) = v"
proof -
  have "unat v < 256 ^ 8" using unat_lt_64 [of v] by simp
  then show ?thesis by (simp add: load_store_same)
qed

lemma ld32_st32_same:
  "(of_nat (load_le (store_le m a 4 (unat (v :: 32 word))) a 4) :: 32 word) = v"
proof -
  have "unat v < 256 ^ 4" using unsigned_less [of v, where ?'a = nat] by simp
  then show ?thesis by (simp add: load_store_same)
qed

lemma load_le_fresh:
  assumes "unat a \<le> unat b" "unat b + k \<le> unat a + n" "unat a + n \<le> 2 ^ 64"
  shows "load_le (set_range a n 0 m) b k = 0"
  using assms
proof (induction k arbitrary: b)
  case 0
  then show ?case by simp
next
  case (Suc k)
  have here: "set_range a n 0 m b = 0"
    using Suc.prems by (simp add: set_range_def in_range_def)
  show ?case
  proof (cases k)
    case 0
    then show ?thesis using here by simp
  next
    case (Suc k')
    then have "Suc (unat b) < 2 ^ 64"
      using Suc.prems by simp
    then have b1: "unat (b + 1) = unat b + 1"
      by (simp add: unat_word_ariths)
    have "load_le (set_range a n 0 m) (b + 1) k = 0"
      using Suc.prems b1 by (intro Suc.IH) simp_all
    then show ?thesis using here by simp
  qed
qed

lemma valid_range_fresh:
  assumes "unat a \<le> unat b" "unat b + k \<le> unat a + n" "unat a + n \<le> 2 ^ 64"
  shows "valid_range (set_range a n True mp) b k"
  using assms
proof (induction k arbitrary: b)
  case 0
  then show ?case by simp
next
  case (Suc k)
  have here: "set_range a n True mp b"
    using Suc.prems by (simp add: set_range_def in_range_def)
  show ?case
  proof (cases k)
    case 0
    then show ?thesis using here by simp
  next
    case (Suc k')
    then have "Suc (unat b) < 2 ^ 64"
      using Suc.prems by simp
    then have b1: "unat (b + 1) = unat b + 1"
      by (simp add: unat_word_ariths)
    have "valid_range (set_range a n True mp) (b + 1) k"
      using Suc.prems b1 by (intro Suc.IH) simp_all
    then show ?thesis using here by simp
  qed
qed


lemmas mem_eval = rd32_def rd64_def wr32_def wr64_def valid_range_4 valid_range_8
  load_le_4 load_le_8 store_le_4 store_le_8 set_range_def in_range_def page_round_def

lemmas prog_eval = bind_def ret_def raise_def outcome_def final_def is_mapped_def
  outstandingPages_def nullptr_def MAP_FAILED_def pageSize_def initial_def

lemma set_range_apply: "set_range a n v f x = (if in_range a n x then v else f x)"
  by (simp add: set_range_def)

lemmas sym_eval = rd32_def rd64_def wr32_def wr64_def load_store_same load_store_apart
  load_le_fresh valid_range_fresh page_round_def

lemmas arena_eval = Arena_create_def Arena_alloc_def Arena_full_def Arena_free_def
  sizeof_Arena_def item_count_at_def size_remain_at_def m_next_at_def m_data_def

lemmas store_eval = myMalloc_def myFree_def ArenaStore_alloc_def ArenaStore_free_def
  alloc_from_class_def get_arena_def set_arena_def

lemma size_class_1024: "size_class 1024 = (1024, 7)"
  by (simp add: size_class_def class_loop.simps)

lemma size_class_8: "size_class 8 = (8, 0)"
  by (simp add: size_class_def)

lemmas region_eval = MMapObject_alloc_def MMapObject_dealloc_def mmap_def munmap_def
  mmapSize_def arenaSize_def BigAlloc_alloc_def sizeof_BigAlloc_def

section \<open>Region creation when the mapping is refused\<close>

text \<open>
  C8. The claim: the counter of outstanding regions goes up exactly when the mapping
  succeeds, and a refused mapping gives a null result with the counter unchanged. The code
  at the refused mapping, from the initial state, for any size and item size: the counter
  has already been incremented, and the test \<^verbatim>\<open>*static_cast<int*>(ptr) == -1\<close> reads
  through \<^verbatim>\<open>MAP_FAILED\<close>, which ends the process; no null result is returned.
\<close>

theorem MMapObject_alloc_refused:
  "outcome (MMapObject_alloc None sz arena_size initial) = Inl SIGSEGV
   \<and> s_outstandingPages (final (MMapObject_alloc None sz arena_size initial))
       = s_outstandingPages initial + 1"
  by (simp add: region_eval prog_eval rd32_def valid_range_4)

section \<open>Releasing the null pointer\<close>

text \<open>
  C9. The claim: \<^verbatim>\<open>free(nullptr)\<close> is a no-op. The code has no test for null:
  \<^verbatim>\<open>ArenaStore::free\<close> reads \<^verbatim>\<open>m_arenaSize\<close> through the pointer, at address 8, and the
  process ends with a segmentation fault.
\<close>

theorem myFree_nullptr_faults:
  "outcome (myFree nullptr initial) = Inl SIGSEGV"
  by (simp add: myFree_def ArenaStore_free_def arenaSize_def prog_eval rd64_def valid_range_8)

section \<open>The large-object path\<close>

text \<open>
  C4. The claim: the large path maps \<open>size + headerSize\<close> bytes. The code passes
  \<open>size\<close> itself to \<^verbatim>\<open>MMapObject::alloc\<close>: for a request of 2000 bytes with the mapping
  placed at \<open>0x10000\<close>, the pointer returned is \<open>0x10010\<close> and the header records a
  region of 2000 bytes, less than 2000 + 16, with item size 0.
\<close>

theorem BigAlloc_alloc_2000:
  "outcome (bind (BigAlloc_alloc (Some 0x10000) 2000) (\<lambda>p.
            bind (mmapSize 0x10000) (\<lambda>total.
            bind (arenaSize 0x10000) (\<lambda>slot. ret (p, total, slot)))) initial)
     = Inr (0x10010, 2000, 0)"
  by (simp add: region_eval prog_eval mem_eval)

section \<open>The arena\<close>

text \<open>
  C1. The claim: \<^verbatim>\<open>Arena::create\<close> sets the remaining capacity to the page size less the
  header, so that at most \<open>(pageSize - headerSize) div slotSize\<close> slots are issued and
  none passes the end of the page. The code stores the raw \<^verbatim>\<open>pageSize\<close>: an arena of
  1024-byte items mapped at \<open>0x10000\<close> starts with 4096 bytes remaining (not 4056),
  issues four slots where \<open>(4096 - 40) div 1024\<close> is 3, and the fourth slot starts at
  \<open>0x11028\<close>, past the end of the page at \<open>0x11000\<close>, on an address that is not mapped.
\<close>

theorem Arena_create_1024_overruns_page:
  "outcome (bind (Arena_create (Some 0x10000) 1024) (\<lambda>a.
            bind (rd64 (size_remain_at a)) (\<lambda>remain.
            bind (Arena_alloc a) (\<lambda>p1.
            bind (Arena_alloc a) (\<lambda>p2.
            bind (Arena_alloc a) (\<lambda>p3.
            bind (Arena_alloc a) (\<lambda>p4.
            bind (Arena_alloc a) (\<lambda>p5.
            bind (is_mapped p4) (\<lambda>inside.
            ret (remain, [p1, p2, p3, p4, p5], inside))))))))) initial)
     = Inr (4096, [0x10428, 0x10828, 0x10C28, 0x11028, 0], False)"
  by (simp add: arena_eval region_eval prog_eval sym_eval set_range_apply in_range_def)

text \<open>
  C3. The claim: the first \<^verbatim>\<open>Arena::alloc\<close> of a fresh arena returns the first byte of
  the data area, the cursor being returned before it is advanced. The code advances
  \<^verbatim>\<open>m_next\<close> and returns the advanced value: for an arena of 8-byte items at
  \<open>0x10000\<close> the data area starts at \<open>0x10028\<close>, and the first two calls return
  \<open>0x10030\<close> and \<open>0x10038\<close>, offsets 8 and 16.
\<close>

theorem Arena_alloc_first_slot_skipped:
  "outcome (bind (Arena_create (Some 0x10000) 8) (\<lambda>a.
            bind (Arena_alloc a) (\<lambda>p1.
            bind (Arena_alloc a) (\<lambda>p2.
            ret (m_data a, p1, p2)))) initial)
     = Inr (0x10028, 0x10030, 0x10038)"
  by (simp add: arena_eval region_eval prog_eval sym_eval)

section \<open>The dispatcher on an exhausted arena\<close>

text \<open>
  C5. The claim: the request that follows the exhaustion of a class's arena is served
  from a fresh arena. The code calls \<^verbatim>\<open>alloc()\<close> on the full arena, clears the table
  entry on its null result and returns that null: of six requests of 1024 bytes, the
  fifth returns \<^verbatim>\<open>nullptr\<close> although the kernel would have granted a mapping at
  \<open>0x20000\<close>, and only the sixth creates the second arena.
\<close>

theorem myMalloc_null_after_exhaustion:
  "outcome (bind (myMalloc (Some 0x10000) 1024) (\<lambda>p1.
            bind (myMalloc (Some 0x20000) 1024) (\<lambda>p2.
            bind (myMalloc (Some 0x20000) 1024) (\<lambda>p3.
            bind (myMalloc (Some 0x20000) 1024) (\<lambda>p4.
            bind (myMalloc (Some 0x20000) 1024) (\<lambda>p5.
            bind (myMalloc (Some 0x20000) 1024) (\<lambda>p6.
            ret [p1, p2, p3, p4, p5, p6])))))) initial)
     = Inr [0x10428, 0x10828, 0x10C28, 0x11028, 0, 0x20428]"
  by (simp add: store_eval size_class_1024 arena_eval region_eval prog_eval sym_eval)

section \<open>What a returned pointer points to\<close>

text \<open>
  C7. The claim: a pointer returned by \<^verbatim>\<open>myMalloc\<close> is 8-byte aligned and has the
  requested number of bytes inside its region. For a request of 4096 bytes mapped at
  \<open>0x10000\<close> the pointer \<open>0x10010\<close> is aligned, but the region is 4096 bytes long, so
  the last 16 bytes of the payload lie outside it: the byte at \<open>p + 4095\<close> is not
  mapped.
\<close>

theorem myMalloc_4096_payload_outside:
  "outcome (bind (myMalloc (Some 0x10000) 4096) (\<lambda>p.
            bind (mmapSize 0x10000) (\<lambda>total.
            bind (is_mapped (p + 4095)) (\<lambda>last_inside.
            ret (p, p AND 7, total, last_inside)))) initial)
     = Inr (0x10010, 0, 4096, False)"
  by (simp add: store_eval region_eval prog_eval sym_eval set_range_apply in_range_def)

section \<open>Releasing a pointer\<close>

text \<open>
  C2. The claim: \<^verbatim>\<open>free\<close> rounds the pointer down to the page boundary, reads the
  header there and unmaps \<^verbatim>\<open>totalBytes\<close> from the header's address. The code casts the
  user pointer itself to \<^verbatim>\<open>MMapObject*\<close>: it reads \<^verbatim>\<open>m_arenaSize\<close> at \<open>ptr + 8\<close> and
  \<^verbatim>\<open>m_mmapSize\<close> at \<open>ptr\<close>, inside the payload, and passes the unaligned pointer to
  \<^verbatim>\<open>munmap\<close>. Releasing the pointer of a 2000-byte request, or of an 8-byte request,
  ends in \<^verbatim>\<open>raise(SIGTRAP)\<close> with the region at \<open>0x10000\<close> still mapped. And when the
  client has stored 1 at \<open>ptr + 8\<close> and 2 at \<open>ptr + 16\<close> of its 2000 bytes, the release
  takes them for an arena's item size and item count: it returns after decrementing the
  client's 2 to 1, the region still mapped and still counted.
\<close>

theorem myFree_uses_pointer_as_header:
  "outcome (bind (myMalloc (Some 0x10000) 2000) myFree initial) = Inl SIGTRAP
   \<and> mapped (final (bind (myMalloc (Some 0x10000) 2000) myFree initial)) 0x10000
   \<and> outcome (bind (myMalloc (Some 0x10000) 8) myFree initial) = Inl SIGTRAP
   \<and> mapped (final (bind (myMalloc (Some 0x10000) 8) myFree initial)) 0x10000
   \<and> outcome (bind (myMalloc (Some 0x10000) 2000) (\<lambda>p.
              bind (wr64 (p + 8) 1) (\<lambda>_.
              bind (wr32 (p + 16) 2) (\<lambda>_.
              bind (myFree p) (\<lambda>_.
              bind (rd32 (p + 16)) (\<lambda>payload.
              bind (is_mapped 0x10000) (\<lambda>still_mapped.
              bind outstandingPages (\<lambda>pages.
              ret (payload, still_mapped, pages)))))))) initial)
       = Inr (1, True, 1)"
  by (simp add: store_eval size_class_8 arena_eval region_eval prog_eval sym_eval
      set_range_apply in_range_def)

section \<open>The size classes\<close>

lemma class_loop_spec:
  "bytes \<noteq> 0 \<Longrightarrow> class_loop bytes i k = (i', k') \<Longrightarrow>
     \<exists>L. i' = push_bit L i \<and> k' = k + int L \<and> 2 ^ L \<le> unat bytes \<and> unat bytes < 2 ^ Suc L"
proof (induction bytes i k rule: class_loop.induct)
  case (1 bytes i arena_index)
  have half: "unat (drop_bit 1 bytes) = unat bytes div 2"
    by (simp add: drop_bit_eq_div unat_div)
  show ?case
  proof (cases "drop_bit 1 bytes = 0")
    case True
    then have "unat bytes div 2 = 0" using half by simp
    moreover have "unat bytes \<noteq> 0" using "1.prems"(1) by (simp add: unat_eq_0)
    ultimately have "unat bytes = 1" by simp
    moreover have "i' = i" "k' = arena_index"
      using "1.prems"(2) True by (simp_all add: class_loop.simps [of bytes])
    ultimately show ?thesis by (intro exI [of _ 0]) simp
  next
    case False
    then have "class_loop (drop_bit 1 bytes) (push_bit 1 i) (arena_index + 1) = (i', k')"
      using "1.prems"(2) by (simp add: class_loop.simps [of bytes])
    from "1.IH" [OF refl False False this]
    obtain L where L: "i' = push_bit L (push_bit 1 i)" "k' = arena_index + 1 + int L"
      "2 ^ L \<le> unat (drop_bit 1 bytes)" "unat (drop_bit 1 bytes) < 2 ^ Suc L"
      by blast
    have "i' = push_bit (Suc L) i"
      using L(1) by (simp add: push_bit_double push_bit_eq_mult mult.commute mult.left_commute)
    moreover have "k' = arena_index + int (Suc L)" using L(2) by simp
    moreover have "2 ^ Suc L \<le> unat bytes" using L(3) half by simp
    moreover have "unat bytes < 2 ^ Suc (Suc L)" using L(4) half by simp
    ultimately show ?thesis by blast
  qed
qed

lemma unat_two_power:
  assumes "L < 64" shows "unat (2 ^ L :: 64 word) = 2 ^ L"
proof -
  have "(2 :: nat) ^ L < 2 ^ 64" using assms by (intro power_strict_increasing) simp_all
  then have "unat (of_nat (2 ^ L) :: 64 word) = 2 ^ L" by (rule unat_of_nat_64)
  then show ?thesis by simp
qed

lemma two_pow_less_D: "(2::nat) ^ a < 2 ^ b \<Longrightarrow> a < b"
  by (rule power_less_imp_less_exp [of 2]) simp_all

lemma two_pow_le_D: "(2::nat) ^ a \<le> 2 ^ b \<Longrightarrow> a \<le> b"
  by (rule power_le_imp_le_exp [of 2]) simp_all

lemma size_class_small: "n \<le> 8 \<Longrightarrow> size_class n = (8, 0)"
  by (simp add: size_class_def)

lemma size_class_spec:
  assumes big: "8 < n" and le: "n \<le> 1024"
  shows "\<exists>k. 1 \<le> k \<and> k \<le> 7 \<and> size_class n = (2 ^ (k + 3), int k)
           \<and> unat n \<le> 2 ^ (k + 3) \<and> 2 ^ (k + 2) < unat n"
proof -
  have un: "8 < unat n" "unat n \<le> 1024"
    using big le by (simp_all add: word_less_nat_alt word_le_nat_alt)
  then have "n \<noteq> 0" by auto
  have not_small: "\<not> n \<le> 8" using big by (simp add: not_le)
  obtain i k where loop: "class_loop n 1 0 = (i, k)" by (cases "class_loop n 1 0")
  from class_loop_spec [OF \<open>n \<noteq> 0\<close> loop]
  obtain L where L: "i = push_bit L 1" "k = int L" "2 ^ L \<le> unat n" "unat n < 2 ^ Suc L"
    by auto
  have "(2::nat) ^ L \<le> 2 ^ 10" using L(3) un(2) by simp
  then have L10: "L \<le> 10" by (rule two_pow_le_D)
  have "(2::nat) ^ 3 < 2 ^ Suc L" using L(4) un(1) by simp
  then have "3 < Suc L" by (rule two_pow_less_D)
  then have L3: "3 \<le> L" by simp
  have i: "i = 2 ^ L" using L(1) by simp
  have ui: "unat i = 2 ^ L" using i L10 by (simp add: unat_two_power)
  show ?thesis
  proof (cases "i < n")
    case True
    then have lt: "2 ^ L < unat n" using ui by (simp add: word_less_nat_alt)
    have "(2::nat) ^ L < 2 ^ 10" using lt un(2) by simp
    then have "L < 10" by (rule two_pow_less_D)
    then have L9: "L \<le> 9" by simp
    have sc: "size_class n = (2 ^ Suc L, int L + 1 - 3)"
      using True not_small loop i L(2) by (simp add: size_class_def)
    define k' where "k' = L - 2"
    have k': "L = k' + 2" using L3 by (simp add: k'_def)
    show ?thesis
      using sc lt L(4) L9 L3 unfolding k' by (intro exI [of _ k']) (simp add: power_add)
  next
    case False
    then have eq: "unat n = 2 ^ L" using ui L(3) by (simp add: word_less_nat_alt)
    have sc: "size_class n = (2 ^ L, int L - 3)"
      using False not_small loop i L(2) by (simp add: size_class_def)
    have "L \<noteq> 3" using eq un(1) by auto
    define k' where "k' = L - 3"
    have k': "L = k' + 3" using L3 by (simp add: k'_def)
    show ?thesis
      using sc eq L10 L3 \<open>L \<noteq> 3\<close> unfolding k' by (intro exI [of _ k']) (simp add: power_add)
  qed
qed

text \<open>
  C6. The dispatcher routes every request: a request of 0 bytes is served by the class
  of 8 bytes, table entry 0, exactly as a request of 8 bytes; a request of at most 1024
  bytes is served by the table entry \<open>k\<close> whose item size \<open>2 ^ (k + 3)\<close> is the smallest
  of the classes 8, 16, ..., 1024 that is at least the request; a request above 1024
  bytes is \<^verbatim>\<open>BigAlloc::alloc\<close> and touches no arena.
\<close>

theorem ArenaStore_alloc_dispatch:
  "ArenaStore_alloc os 0 = alloc_from_class os 8 0
   \<and> (n \<le> 1024 \<longrightarrow> (\<exists>k. k \<le> 7 \<and> size_class n = (2 ^ (k + 3), int k)
          \<and> ArenaStore_alloc os n = alloc_from_class os (2 ^ (k + 3)) (int k)
          \<and> unat n \<le> 2 ^ (k + 3)
          \<and> (\<forall>j. unat n \<le> 2 ^ (j + 3) \<longrightarrow> k \<le> j)))
   \<and> (1024 < n \<longrightarrow> ArenaStore_alloc os n = BigAlloc_alloc os n)"
proof (intro conjI impI)
  show "ArenaStore_alloc os 0 = alloc_from_class os 8 0"
    by (simp add: ArenaStore_alloc_def size_class_def)
next
  assume "1024 < n"
  then show "ArenaStore_alloc os n = BigAlloc_alloc os n"
    by (simp add: ArenaStore_alloc_def)
next
  assume le: "n \<le> 1024"
  then have not_big: "\<not> 1024 < n" by (simp add: not_less)
  show "\<exists>k. k \<le> 7 \<and> size_class n = (2 ^ (k + 3), int k)
          \<and> ArenaStore_alloc os n = alloc_from_class os (2 ^ (k + 3)) (int k)
          \<and> unat n \<le> 2 ^ (k + 3)
          \<and> (\<forall>j. unat n \<le> 2 ^ (j + 3) \<longrightarrow> k \<le> j)"
  proof (cases "n \<le> 8")
    case True
    then have "unat n \<le> 8" by (simp add: word_le_nat_alt)
    then show ?thesis
      using True not_big by (intro exI [of _ 0]) (simp add: size_class_small ArenaStore_alloc_def)
  next
    case False
    then have "8 < n" by (simp add: not_le)
    from size_class_spec [OF this le]
    obtain k where k: "1 \<le> k" "k \<le> 7" "size_class n = (2 ^ (k + 3), int k)"
      "unat n \<le> 2 ^ (k + 3)" "2 ^ (k + 2) < unat n"
      by blast
    have "k \<le> j" if "unat n \<le> 2 ^ (j + 3)" for j
    proof -
      have "(2::nat) ^ (k + 2) < 2 ^ (j + 3)" using k(5) that by simp
      then have "k + 2 < j + 3" by (rule two_pow_less_D)
      then show ?thesis by simp
    qed
    then show ?thesis
      using k not_big by (intro exI [of _ k]) (simp add: ArenaStore_alloc_def)
  qed
qed

theorem ArenaStore_alloc_dispatch_witness:
  "(100 :: 64 word) \<le> 1024
   \<and> (\<exists>k. k \<le> 7 \<and> size_class 100 = (2 ^ (k + 3), int k)
          \<and> ArenaStore_alloc None 100 = alloc_from_class None (2 ^ (k + 3)) (int k)
          \<and> unat (100 :: 64 word) \<le> 2 ^ (k + 3)
          \<and> (\<forall>j. unat (100 :: 64 word) \<le> 2 ^ (j + 3) \<longrightarrow> k \<le> j))
   \<and> (1024 :: 64 word) < 2000
   \<and> ArenaStore_alloc None 2000 = BigAlloc_alloc None 2000"
  using ArenaStore_alloc_dispatch [of None 100] ArenaStore_alloc_dispatch [of None 2000]
  by simp

section \<open>The ninth table entry\<close>

lemma keeps_table_ret: "keeps_table (ret v)"
  by (simp add: keeps_table_def ret_def final_def)

lemma keeps_table_raise: "keeps_table (raise sg)"
  by (simp add: keeps_table_def raise_def final_def)

lemma keeps_table_bind:
  assumes "keeps_table m" "\<And>v. keeps_table (f v)"
  shows "keeps_table (bind m f)"
proof (unfold keeps_table_def, intro allI)
  fix s :: state
  have m: "m_arenas (final (m s)) = m_arenas s"
    using assms(1) by (simp add: keeps_table_def)
  show "m_arenas (final (bind m f s)) = m_arenas s"
  proof (cases "m s")
    case (Inl e)
    then have "final (bind m f s) = final (m s)"
      by (simp add: bind_def final_def)
    then show ?thesis using m by simp
  next
    case (Inr r)
    obtain v s' where r: "r = (v, s')" by (cases r)
    have "m_arenas s' = m_arenas s"
      using m Inr r by (simp add: final_def)
    moreover have "m_arenas (final (f v s')) = m_arenas s'"
      using assms(2) [of v] by (simp add: keeps_table_def)
    ultimately show ?thesis using Inr r by (simp add: bind_def)
  qed
qed

lemma keeps_table_if:
  "keeps_table m1 \<Longrightarrow> keeps_table m2 \<Longrightarrow> keeps_table (if c then m1 else m2)"
  by simp

lemma keeps_table_rd64: "keeps_table (rd64 a)"
  by (simp add: keeps_table_def rd64_def final_def)

lemma keeps_table_rd32: "keeps_table (rd32 a)"
  by (simp add: keeps_table_def rd32_def final_def)

lemma keeps_table_wr64: "keeps_table (wr64 a v)"
  by (simp add: keeps_table_def wr64_def final_def)

lemma keeps_table_wr32: "keeps_table (wr32 a v)"
  by (simp add: keeps_table_def wr32_def final_def)

lemmas keeps_table_intros = keeps_table_bind keeps_table_if keeps_table_ret keeps_table_raise
  keeps_table_rd64 keeps_table_rd32 keeps_table_wr64 keeps_table_wr32

lemma mmap_table: "m_arenas (snd (mmap os len s)) = m_arenas s"
  by (simp add: mmap_def split: option.splits)

lemma munmap_table: "m_arenas (snd (munmap a len s)) = m_arenas s"
  by (simp add: munmap_def)

lemma keeps_table_MMapObject_alloc: "keeps_table (MMapObject_alloc os sz asz)"
proof (unfold keeps_table_def, intro allI)
  fix s :: state
  let ?s1 = "s\<lparr>s_outstandingPages := s_outstandingPages s + 1\<rparr>"
  obtain ptr s2 where mm: "mmap os sz ?s1 = (ptr, s2)" by (cases "mmap os sz ?s1")
  have s2: "m_arenas s2 = m_arenas s" using mmap_table [of os sz ?s1] mm by simp
  have "keeps_table (bind (rd32 ptr) (\<lambda>v.
           if sint v = - 1 \<or> sint v smod 8 \<noteq> 0 then ret nullptr
           else bind (wr64 ptr sz) (\<lambda>_. bind (wr64 (ptr + 8) asz) (\<lambda>_. ret ptr))))"
    by (intro keeps_table_intros)
  then show "m_arenas (final (MMapObject_alloc os sz asz s)) = m_arenas s"
    using mm s2 by (simp add: MMapObject_alloc_def keeps_table_def)
qed

lemma keeps_table_munmap:
  "keeps_table (\<lambda>s2. case munmap obj len s2 of (err, s3) \<Rightarrow>
     if err = - 1 then raise SIGTRAP s3 else ret () s3)"
proof (unfold keeps_table_def, intro allI)
  fix s2 :: state
  obtain err s3 where mu: "munmap obj len s2 = (err, s3)" by (cases "munmap obj len s2")
  then have "m_arenas s3 = m_arenas s2" using munmap_table [of obj len s2] by simp
  then show "m_arenas (final (case munmap obj len s2 of (err, s3) \<Rightarrow>
     if err = - 1 then raise SIGTRAP s3 else ret () s3)) = m_arenas s2"
    using mu by (simp add: raise_def ret_def final_def)
qed

lemma keeps_table_MMapObject_dealloc: "keeps_table (MMapObject_dealloc obj)"
proof (unfold keeps_table_def, intro allI)
  fix s :: state
  have "keeps_table (bind (mmapSize obj) (\<lambda>len s2.
                case munmap obj len s2 of (err, s3) \<Rightarrow>
                  if err = - 1 then raise SIGTRAP s3 else ret () s3))"
    unfolding mmapSize_def by (intro keeps_table_intros keeps_table_munmap)
  then show "m_arenas (final (MMapObject_dealloc obj s)) = m_arenas s"
    by (simp add: MMapObject_dealloc_def keeps_table_def Let_def raise_def final_def)
qed

lemma keeps_table_BigAlloc_alloc: "keeps_table (BigAlloc_alloc os sz)"
  unfolding BigAlloc_alloc_def
  by (intro keeps_table_intros keeps_table_MMapObject_alloc)

lemma keeps_table_Arena_create: "keeps_table (Arena_create os isz)"
  unfolding Arena_create_def
  by (intro keeps_table_intros keeps_table_MMapObject_alloc)

lemma keeps_table_Arena_full: "keeps_table (Arena_full a)"
  unfolding Arena_full_def arenaSize_def
  by (intro keeps_table_intros)

lemma keeps_table_Arena_alloc: "keeps_table (Arena_alloc a)"
  unfolding Arena_alloc_def arenaSize_def
  by (intro keeps_table_intros keeps_table_Arena_full)

lemma keeps_table_Arena_free: "keeps_table (Arena_free a)"
  unfolding Arena_free_def
  by (intro keeps_table_intros keeps_table_Arena_full)

lemma keeps_table_ArenaStore_free: "keeps_table (ArenaStore_free p)"
  unfolding ArenaStore_free_def arenaSize_def
  by (intro keeps_table_intros keeps_table_Arena_free keeps_table_MMapObject_dealloc)

lemma keeps_table_get_arena: "keeps_table (get_arena k)"
  by (simp add: keeps_table_def get_arena_def final_def)

lemma keeps_ninth_table: "keeps_table m \<Longrightarrow> keeps_ninth m"
  by (simp add: keeps_table_def keeps_ninth_def ninth_entry_null_def)

lemma keeps_ninth_bind:
  assumes "keeps_ninth m" "\<And>v. keeps_ninth (f v)"
  shows "keeps_ninth (bind m f)"
proof (unfold keeps_ninth_def, intro allI impI)
  fix s :: state
  assume ok: "ninth_entry_null s"
  then have m: "ninth_entry_null (final (m s))"
    using assms(1) by (simp add: keeps_ninth_def)
  show "ninth_entry_null (final (bind m f s))"
  proof (cases "m s")
    case (Inl e)
    then have "final (bind m f s) = final (m s)"
      by (simp add: bind_def final_def)
    then show ?thesis using m by simp
  next
    case (Inr r)
    obtain v s' where r: "r = (v, s')" by (cases r)
    have "ninth_entry_null s'"
      using m Inr r by (simp add: final_def)
    then have "ninth_entry_null (final (f v s'))"
      using assms(2) [of v] by (simp add: keeps_ninth_def)
    then show ?thesis using Inr r by (simp add: bind_def)
  qed
qed

lemma keeps_ninth_if:
  "keeps_ninth m1 \<Longrightarrow> keeps_ninth m2 \<Longrightarrow> keeps_ninth (if c then m1 else m2)"
  by simp

lemma keeps_ninth_set_arena:
  "0 \<le> k \<Longrightarrow> k \<le> 7 \<Longrightarrow> keeps_ninth (set_arena k a)"
  by (simp add: keeps_ninth_def set_arena_def final_def ninth_entry_null_def)

lemma keeps_ninth_alloc_from_class:
  assumes "0 \<le> k" "k \<le> 7"
  shows "keeps_ninth (alloc_from_class os b k)"
  unfolding alloc_from_class_def
  by (intro keeps_ninth_bind keeps_ninth_if keeps_ninth_set_arena assms
      keeps_ninth_table [OF keeps_table_get_arena] keeps_ninth_table [OF keeps_table_Arena_create]
      keeps_ninth_table [OF keeps_table_Arena_alloc] keeps_ninth_table [OF keeps_table_ret])

lemma size_class_index:
  assumes "n \<le> 1024"
  shows "0 \<le> snd (size_class n) \<and> snd (size_class n) \<le> 7"
proof (cases "n \<le> 8")
  case True
  then show ?thesis by (simp add: size_class_small)
next
  case False
  then have "8 < n" by (simp add: not_le)
  from size_class_spec [OF this assms] show ?thesis by auto
qed

lemma keeps_ninth_ArenaStore_alloc: "keeps_ninth (ArenaStore_alloc os n)"
proof (cases "1024 < n")
  case True
  then show ?thesis
    by (simp add: ArenaStore_alloc_def keeps_ninth_table keeps_table_BigAlloc_alloc)
next
  case False
  then have "n \<le> 1024" by (simp add: not_less)
  from size_class_index [OF this] show ?thesis
    using False by (cases "size_class n") (simp add: ArenaStore_alloc_def keeps_ninth_alloc_from_class)
qed

lemma keeps_ninth_step: "keeps_ninth (step r)"
proof (cases r)
  case (Malloc os n)
  then show ?thesis
    by (simp add: myMalloc_def keeps_ninth_bind keeps_ninth_ArenaStore_alloc
        keeps_ninth_table keeps_table_ret)
next
  case (Free p)
  then show ?thesis
    by (simp add: myFree_def keeps_ninth_table keeps_table_ArenaStore_free)
qed

lemma keeps_ninth_run: "keeps_ninth (run rs)"
proof (induction rs)
  case Nil
  then show ?case by (simp add: keeps_ninth_table keeps_table_ret)
next
  case (Cons r rs)
  then show ?case by (simp add: keeps_ninth_bind keeps_ninth_step)
qed

lemma ninth_entry_null_initial: "ninth_entry_null initial"
  by (simp add: ninth_entry_null_def initial_def)

text \<open>
  C10. Whatever requests are made, from the initial state, and whatever the kernel
  answers, the table keeps its nine entries and the ninth, \<^verbatim>\<open>m_arenas[8]\<close>, stays null,
  also in the state a signal leaves behind; the index computed for a request of at most
  1024 bytes lies between 0 and 7.
\<close>

theorem ninth_entry_never_assigned:
  "ninth_entry_null (final (run rs initial))
   \<and> (n \<le> 1024 \<longrightarrow> 0 \<le> snd (size_class n) \<and> snd (size_class n) \<le> 7)"
  using keeps_ninth_run [of rs] ninth_entry_null_initial size_class_index [of n]
  by (simp add: keeps_ninth_def)

theorem ninth_entry_never_assigned_witness:
  "ninth_entry_null (final (run [Malloc (Some 0x10000) 1024, Free 0x10428] initial))
   \<and> (1024 :: 64 word) \<le> 1024
   \<and> 0 \<le> snd (size_class 1024) \<and> snd (size_class 1024) \<le> 7"
  using ninth_entry_never_assigned [of "[Malloc (Some 0x10000) 1024, Free 0x10428]" 1024]
  by simp

end
